theory Spec2Isabelle
  imports Complex_Main "HOL-Library.AList"
begin

section \<open>JSON values and the collaborators of RepoStateFile\<close>

text \<open>
  \<^verbatim>\<open>JsonFile.parseString\<close> returns an arbitrary JavaScript value. Objects are kept as
  association lists; a property read takes the first binding of the key.
\<close>

datatype json =
    JNull
  | JBool bool
  | JNum rat
  | JStr string
  | JArr "json list"
  | JObj "(string \<times> json) list"

text \<open>JavaScript truthiness, as used by \<^verbatim>\<open>if (repoStateJson)\<close>.\<close>

fun truthy :: "json \<Rightarrow> bool" where
  "truthy JNull = False"
| "truthy (JBool b) = b"
| "truthy (JNum n) = (n \<noteq> 0)"
| "truthy (JStr s) = (s \<noteq> [])"
| "truthy (JArr xs) = True"
| "truthy (JObj kvs) = True"

text \<open>Truthiness of a value of type \<^verbatim>\<open>string | undefined\<close>.\<close>

fun truthyStr :: "string option \<Rightarrow> bool" where
  "truthyStr None = False"
| "truthyStr (Some s) = (s \<noteq> [])"

text \<open>
  Reading a property that the interface \<^verbatim>\<open>IRepoStateJson\<close> declares as
  \<^verbatim>\<open>string | undefined\<close>. After schema validation the property is a string or absent.
\<close>

fun strProp :: "json \<Rightarrow> string \<Rightarrow> string option" where
  "strProp (JObj kvs) k = (case map_of kvs k of Some (JStr s) \<Rightarrow> Some s | _ \<Rightarrow> None)"
| "strProp _ k = None"

fun isJStr :: "json \<Rightarrow> bool" where
  "isJStr (JStr s) = True"
| "isJStr _ = False"

text \<open>
  Modelled from the spec: the schema file \<^verbatim>\<open>schemas/repo-state.schema.json\<close> is not part of
  the sources. The spec describes it as a fixed two-field schema, both fields optional
  strings, unknown fields rejected.
\<close>

fun validateObject :: "json \<Rightarrow> bool" where
  "validateObject (JObj kvs) =
     list_all (\<lambda>(k, v). (k = ''pnpmShrinkwrapHash'' \<or> k = ''preferredVersionsHash'') \<and> isJStr v) kvs"
| "validateObject _ = False"

section \<open>The tracker\<close>

record RepoStateFile =
  repoStateFilePath :: string
  variant :: "string option"
  pnpmShrinkwrapHash :: "string option"
  preferredVersionsHash :: "string option"
  isValid :: bool
  modified :: bool

text \<open>The private constructor; \<^verbatim>\<open>_modified\<close> is initialised to false.\<close>

definition newRepoStateFile ::
  "json option \<Rightarrow> bool \<Rightarrow> string \<Rightarrow> string option \<Rightarrow> RepoStateFile" where
  "newRepoStateFile repoStateJson valid filePath var =
     (case repoStateJson of
        Some j \<Rightarrow>
          (if truthy j then
             \<lparr> repoStateFilePath = filePath, variant = var,
               pnpmShrinkwrapHash = strProp j ''pnpmShrinkwrapHash'',
               preferredVersionsHash = strProp j ''preferredVersionsHash'',
               isValid = valid, modified = False \<rparr>
           else
             \<lparr> repoStateFilePath = filePath, variant = var,
               pnpmShrinkwrapHash = None, preferredVersionsHash = None,
               isValid = valid, modified = False \<rparr>)
      | None \<Rightarrow>
          \<lparr> repoStateFilePath = filePath, variant = var,
            pnpmShrinkwrapHash = None, preferredVersionsHash = None,
            isValid = valid, modified = False \<rparr>)"

subsection \<open>String primitives of the merge-conflict scan\<close>

definition newline :: char where
  "newline = CHR 0x0A"

text \<open>\<^verbatim>\<open>String.prototype.indexOf(ch, fromIndex)\<close>: the first index at or after
  \<open>fromIndex\<close> holding \<open>ch\<close>, or \<open>-1\<close>.\<close>

definition indexOf :: "string \<Rightarrow> char \<Rightarrow> int \<Rightarrow> int" where
  "indexOf s ch fromIndex =
     (let k = nat (max 0 fromIndex); rest = drop k s
      in if ch \<in> set rest then int (k + length (takeWhile (\<lambda>x. x \<noteq> ch) rest)) else - 1)"

text \<open>\<^verbatim>\<open>String.prototype.substr(start, len)\<close>; a negative start counts from the end.\<close>

definition substr :: "string \<Rightarrow> int \<Rightarrow> nat \<Rightarrow> string" where
  "substr s start len =
     take len (drop (nat (if start < 0 then max 0 (int (length s) + start) else start)) s)"

definition conflictMarker :: string where
  "conflictMarker = ''<<<<<<<''"

text \<open>
  The \<^verbatim>\<open>for\<close> loop of \<^verbatim>\<open>loadFromFile\<close>: it starts with \<^verbatim>\<open>nextNewlineIndex = 0\<close>,
  tests the seven characters at \<^verbatim>\<open>nextNewlineIndex + 1\<close>, and moves to the next line feed
  found at or after \<^verbatim>\<open>nextNewlineIndex + 1\<close>. The result is \<^verbatim>\<open>foundMergeConflictMarker\<close>.
\<close>

function findMergeConflictMarker :: "string \<Rightarrow> int \<Rightarrow> bool" where
  "findMergeConflictMarker fileContents nextNewlineIndex =
     (if nextNewlineIndex > - 1 then
        (if substr fileContents (nextNewlineIndex + 1) 7 = conflictMarker then True
         else findMergeConflictMarker fileContents
                (indexOf fileContents newline (nextNewlineIndex + 1)))
      else False)"
  by pat_completeness auto
termination
proof (relation "measure (\<lambda>(s, n). if n < 0 then 0 else 1 + nat (int (length s) - n))")
  show "wf (measure (\<lambda>(s, n). if n < 0 then 0 else 1 + nat (int (length s) - n)))"
    by simp
next
  fix fileContents :: string and nextNewlineIndex :: int
  assume pos: "- 1 < nextNewlineIndex"
  define k where "k = nat (max 0 (nextNewlineIndex + 1))"
  define rest where "rest = drop k fileContents"
  let ?m = "indexOf fileContents newline (nextNewlineIndex + 1)"
  show "((fileContents, ?m), (fileContents, nextNewlineIndex))
        \<in> measure (\<lambda>(s, n). if n < 0 then 0 else 1 + nat (int (length s) - n))"
  proof (cases "newline \<in> set rest")
    case False
    then have "?m = - 1" by (simp add: indexOf_def Let_def k_def rest_def)
    then show ?thesis using pos by simp
  next
    case True
    then have val: "?m = int (k + length (takeWhile (\<lambda>x. x \<noteq> newline) rest))"
      by (simp add: indexOf_def Let_def k_def rest_def)
    have "length (takeWhile (\<lambda>x. x \<noteq> newline) rest) < length rest"
      using True by (induction rest) auto
    then have "k + length (takeWhile (\<lambda>x. x \<noteq> newline) rest) < length fileContents"
      by (simp add: rest_def)
    then have upper: "?m < int (length fileContents)"
      unfolding val by (simp only: of_nat_less_iff)
    have lower: "nextNewlineIndex + 1 \<le> ?m"
      unfolding val using pos by (simp add: k_def)
    from upper lower pos show ?thesis by simp
  qed
qed

declare findMergeConflictMarker.simps [simp del]

text \<open>\<^verbatim>\<open>String.prototype.split('\\n')\<close>: the lines of a text; the empty text has one empty line.\<close>

fun splitLines :: "string \<Rightarrow> string list" where
  "splitLines [] = [[]]"
| "splitLines (c # cs) =
     (if c = newline then [] # splitLines cs
      else (case splitLines cs of l # ls \<Rightarrow> (c # l) # ls | [] \<Rightarrow> [[c]]))"

text \<open>
  The spec's condition, in its own words: the content has a line beginning with seven
  \<open><\<close> characters.
\<close>

definition hasConflictMarkerLine :: "string \<Rightarrow> bool" where
  "hasConflictMarkerLine s = list_ex (\<lambda>l. take 7 l = conflictMarker) (splitLines s)"

subsection \<open>loadFromFile\<close>

text \<open>
  The outcome of \<^verbatim>\<open>FileSystem.readFile\<close>: the content, the "does not exist" error that
  \<^verbatim>\<open>loadFromFile\<close> swallows, or any other error, which it rethrows.
\<close>

datatype read_result = FileContents string | NotExistError | OtherReadError

datatype load_error = ReadFailed string | SchemaViolation string

definition invalidRepoStateJson :: json where
  "invalidRepoStateJson =
     JObj [(''preferredVersionsHash'', JStr ''INVALID''), (''pnpmShrinkwrapHash'', JStr ''INVALID'')]"

text \<open>
  \<^verbatim>\<open>RepoStateFile.loadFromFile\<close>. The parser \<^verbatim>\<open>JsonFile.parseString\<close> is a parameter;
  \<open>None\<close> stands for a thrown parse error. The \<^verbatim>\<open>catch\<close> block runs the marker scan
  and does not rethrow.
\<close>

definition loadFromFile ::
  "(string \<Rightarrow> json option) \<Rightarrow> (string \<Rightarrow> read_result) \<Rightarrow> string \<Rightarrow> string option
     \<Rightarrow> load_error + RepoStateFile" where
  "loadFromFile parseString readFile jsonFilename var =
     (case readFile jsonFilename of
        OtherReadError \<Rightarrow> Inl (ReadFailed jsonFilename)
      | NotExistError \<Rightarrow> Inr (newRepoStateFile None True jsonFilename var)
      | FileContents fileContents \<Rightarrow>
          (if fileContents \<noteq> [] then
             (let (foundMergeConflictMarker, repoStateJson) =
                    (case parseString fileContents of
                       Some j \<Rightarrow> (False, Some j)
                     | None \<Rightarrow>
                         (if findMergeConflictMarker fileContents 0
                          then (True, Some invalidRepoStateJson)
                          else (False, None)))
              in (case repoStateJson of
                    Some j \<Rightarrow>
                      (if truthy j \<and> \<not> validateObject j
                       then Inl (SchemaViolation jsonFilename)
                       else Inr (newRepoStateFile (Some j) (\<not> foundMergeConflictMarker)
                                   jsonFilename var))
                  | None \<Rightarrow>
                      Inr (newRepoStateFile None (\<not> foundMergeConflictMarker) jsonFilename var)))
           else Inr (newRepoStateFile None True jsonFilename var)))"

subsection \<open>refreshState\<close>

record PnpmOptions =
  preventManualShrinkwrapChanges :: bool
  useWorkspaces :: bool

text \<open>A loaded lockfile; \<^verbatim>\<open>getShrinkwrapHash\<close> takes the \<^verbatim>\<open>omitImporters\<close> option.\<close>

record PnpmShrinkwrapFile =
  getShrinkwrapHash :: "bool option \<Rightarrow> string"

record CommonVersionsConfiguration =
  getPreferredVersionsHash :: string

record RushConfiguration =
  packageManager :: string
  pnpmOptions :: "PnpmOptions option"
  omitImportersFromPreventManualShrinkwrapChanges :: "bool option"
  getCommittedShrinkwrapFilename :: "string option \<Rightarrow> string"
  getCommonVersions :: "string option \<Rightarrow> CommonVersionsConfiguration"

text \<open>
  The static collaborators: \<^verbatim>\<open>PnpmShrinkwrapFile.loadFromFile\<close>, which returns
  \<^verbatim>\<open>undefined\<close> (\<open>None\<close>) when the lockfile cannot be located, and
  \<^verbatim>\<open>JsonFile.stringify\<close> with \<^verbatim>\<open>newlineConversion: Lf\<close>.
\<close>

record Collaborators =
  PnpmShrinkwrapFile_loadFromFile :: "string \<Rightarrow> PnpmOptions option \<Rightarrow> PnpmShrinkwrapFile option"
  JsonFile_stringify :: "json \<Rightarrow> string"

text \<open>The disk is observed through the calls of \<^verbatim>\<open>FileSystem.writeFile\<close>, oldest first.\<close>

type_synonym disk = "(string \<times> string) list"

definition writeFile :: "string \<Rightarrow> string \<Rightarrow> disk \<Rightarrow> disk" where
  "writeFile filePath content d = d @ [(filePath, content)]"

definition banner :: string where
  "banner = ''// DO NOT MODIFY THIS FILE MANUALLY BUT DO COMMIT IT. It is generated and used by Rush.''"

text \<open>The object that \<^verbatim>\<open>_serialize\<close> builds field by field before handing it to
  \<^verbatim>\<open>JsonFile.stringify\<close>. Each test is a truthiness test.\<close>

fun fieldIfTruthy :: "string \<Rightarrow> string option \<Rightarrow> (string \<times> json) list" where
  "fieldIfTruthy k None = []"
| "fieldIfTruthy k (Some h) = (if h \<noteq> [] then [(k, JStr h)] else [])"

definition serializedJson :: "RepoStateFile \<Rightarrow> json" where
  "serializedJson this =
     JObj (fieldIfTruthy ''pnpmShrinkwrapHash'' (pnpmShrinkwrapHash this)
         @ fieldIfTruthy ''preferredVersionsHash'' (preferredVersionsHash this))"

definition serialize :: "Collaborators \<Rightarrow> RepoStateFile \<Rightarrow> string" where
  "serialize env this = JsonFile_stringify env (serializedJson this)"

definition fileContent :: "Collaborators \<Rightarrow> RepoStateFile \<Rightarrow> string" where
  "fileContent env this = banner @ [newline] @ serialize env this"

definition saveIfModified ::
  "Collaborators \<Rightarrow> RepoStateFile \<times> disk \<Rightarrow> bool \<times> RepoStateFile \<times> disk" where
  "saveIfModified env st =
     (case st of (this, d) \<Rightarrow>
        if modified this
        then (True, this\<lparr>modified := False\<rparr>,
              writeFile (repoStateFilePath this) (fileContent env this) d)
        else (False, this, d))"

definition preventShrinkwrapChanges :: "RushConfiguration \<Rightarrow> bool" where
  "preventShrinkwrapChanges rushConfiguration =
     (packageManager rushConfiguration = ''pnpm'' \<and>
      (case pnpmOptions rushConfiguration of
         None \<Rightarrow> False
       | Some opts \<Rightarrow> preventManualShrinkwrapChanges opts))"

definition useWorkspacesEnabled :: "RushConfiguration \<Rightarrow> bool" where
  "useWorkspacesEnabled rushConfiguration =
     (case pnpmOptions rushConfiguration of
        None \<Rightarrow> False
      | Some opts \<Rightarrow> useWorkspaces opts)"

text \<open>The committed lockfile of the tracker's variant, as \<^verbatim>\<open>refreshState\<close> loads it.\<close>

definition committedShrinkwrapFile ::
  "Collaborators \<Rightarrow> RushConfiguration \<Rightarrow> RepoStateFile \<Rightarrow> PnpmShrinkwrapFile option" where
  "committedShrinkwrapFile env rushConfiguration this =
     PnpmShrinkwrapFile_loadFromFile env
       (getCommittedShrinkwrapFilename rushConfiguration (variant this))
       (pnpmOptions rushConfiguration)"

text \<open>First \<^verbatim>\<open>if\<close>/\<^verbatim>\<open>else if\<close> block of \<^verbatim>\<open>refreshState\<close>.\<close>

definition refreshShrinkwrapHash ::
  "Collaborators \<Rightarrow> RushConfiguration \<Rightarrow> RepoStateFile \<Rightarrow> RepoStateFile" where
  "refreshShrinkwrapHash env rushConfiguration this =
     (if preventShrinkwrapChanges rushConfiguration then
        (case committedShrinkwrapFile env rushConfiguration this of
           Some pnpmShrinkwrapFile \<Rightarrow>
             (let shrinkwrapFileHash = getShrinkwrapHash pnpmShrinkwrapFile
                    (omitImportersFromPreventManualShrinkwrapChanges rushConfiguration)
              in if pnpmShrinkwrapHash this \<noteq> Some shrinkwrapFileHash
                 then this\<lparr>pnpmShrinkwrapHash := Some shrinkwrapFileHash, modified := True\<rparr>
                 else this)
         | None \<Rightarrow> this)
      else if pnpmShrinkwrapHash this \<noteq> None
           then this\<lparr>pnpmShrinkwrapHash := None, modified := True\<rparr>
           else this)"

text \<open>Second \<^verbatim>\<open>if\<close>/\<^verbatim>\<open>else if\<close> block of \<^verbatim>\<open>refreshState\<close>.\<close>

definition refreshPreferredVersionsHash ::
  "RushConfiguration \<Rightarrow> RepoStateFile \<Rightarrow> RepoStateFile" where
  "refreshPreferredVersionsHash rushConfiguration this =
     (if useWorkspacesEnabled rushConfiguration then
        (let newHash = getPreferredVersionsHash (getCommonVersions rushConfiguration (variant this))
         in if preferredVersionsHash this \<noteq> Some newHash
            then this\<lparr>preferredVersionsHash := Some newHash, modified := True\<rparr>
            else this)
      else if preferredVersionsHash this \<noteq> None
           then this\<lparr>preferredVersionsHash := None, modified := True\<rparr>
           else this)"

text \<open>The tracker as \<^verbatim>\<open>refreshState\<close> hands it to \<^verbatim>\<open>_saveIfModified\<close>: both fields
  reconciled, then \<^verbatim>\<open>_isValid = true\<close>.\<close>

definition reconciled :: "Collaborators \<Rightarrow> RushConfiguration \<Rightarrow> RepoStateFile \<Rightarrow> RepoStateFile" where
  "reconciled env rushConfiguration this =
     (refreshPreferredVersionsHash rushConfiguration
        (refreshShrinkwrapHash env rushConfiguration this))\<lparr>isValid := True\<rparr>"

text \<open>\<^verbatim>\<open>refreshState\<close>: returns whether the file was written, the tracker and the disk.\<close>

definition refreshState ::
  "Collaborators \<Rightarrow> RushConfiguration \<Rightarrow> RepoStateFile \<times> disk \<Rightarrow> bool \<times> RepoStateFile \<times> disk" where
  "refreshState env rushConfiguration st =
     (case st of (this, d) \<Rightarrow> saveIfModified env (reconciled env rushConfiguration this, d))"

text \<open>A hash as the written record shows it: \<^verbatim>\<open>_serialize\<close> leaves out an absent hash and
  an empty one.\<close>

fun omitEmpty :: "string option \<Rightarrow> string option" where
  "omitEmpty None = None"
| "omitEmpty (Some h) = (if h = [] then None else Some h)"

section \<open>Custom tips\<close>

datatype CustomTipId =
    TIP_PNPM_UNEXPECTED_STORE
  | TIP_RUSH_INCONSISTENT_VERSIONS
  | TIP_PNPM_NO_MATCHING_VERSION
  | TIP_PNPM_NO_MATCHING_VERSION_INSIDE_WORKSPACE
  | TIP_PNPM_PEER_DEP_ISSUES
  | TIP_PNPM_OUTDATED_LOCKFILE
  | TIP_PNPM_TARBALL_INTEGRITY
  | TIP_PNPM_MISMATCHED_RELEASE_CHANNEL
  | TIP_PNPM_INVALID_NODE_VERSION

text \<open>The string value of each member of the enum; it is also the member's key.\<close>

fun tipIdString :: "CustomTipId \<Rightarrow> string" where
  "tipIdString TIP_PNPM_UNEXPECTED_STORE = ''TIP_PNPM_UNEXPECTED_STORE''"
| "tipIdString TIP_RUSH_INCONSISTENT_VERSIONS = ''TIP_RUSH_INCONSISTENT_VERSIONS''"
| "tipIdString TIP_PNPM_NO_MATCHING_VERSION = ''TIP_PNPM_NO_MATCHING_VERSION''"
| "tipIdString TIP_PNPM_NO_MATCHING_VERSION_INSIDE_WORKSPACE =
     ''TIP_PNPM_NO_MATCHING_VERSION_INSIDE_WORKSPACE''"
| "tipIdString TIP_PNPM_PEER_DEP_ISSUES = ''TIP_PNPM_PEER_DEP_ISSUES''"
| "tipIdString TIP_PNPM_OUTDATED_LOCKFILE = ''TIP_PNPM_OUTDATED_LOCKFILE''"
| "tipIdString TIP_PNPM_TARBALL_INTEGRITY = ''TIP_PNPM_TARBALL_INTEGRITY''"
| "tipIdString TIP_PNPM_MISMATCHED_RELEASE_CHANNEL = ''TIP_PNPM_MISMATCHED_RELEASE_CHANNEL''"
| "tipIdString TIP_PNPM_INVALID_NODE_VERSION = ''TIP_PNPM_INVALID_NODE_VERSION''"

definition allCustomTipIds :: "CustomTipId list" where
  "allCustomTipIds =
     [TIP_PNPM_UNEXPECTED_STORE, TIP_RUSH_INCONSISTENT_VERSIONS, TIP_PNPM_NO_MATCHING_VERSION,
      TIP_PNPM_NO_MATCHING_VERSION_INSIDE_WORKSPACE, TIP_PNPM_PEER_DEP_ISSUES,
      TIP_PNPM_OUTDATED_LOCKFILE, TIP_PNPM_TARBALL_INTEGRITY,
      TIP_PNPM_MISMATCHED_RELEASE_CHANNEL, TIP_PNPM_INVALID_NODE_VERSION]"

definition customTipIdKeys :: "string list" where
  "customTipIdKeys = map tipIdString allCustomTipIds"

text \<open>
  The compiled enum is an ordinary object, so the \<^verbatim>\<open>in\<close> operator also answers true for
  the property names it inherits from \<^verbatim>\<open>Object.prototype\<close>.
\<close>

definition objectPrototypeKeys :: "string list" where
  "objectPrototypeKeys =
     [''constructor'', ''hasOwnProperty'', ''isPrototypeOf'', ''propertyIsEnumerable'',
      ''toLocaleString'', ''toString'', ''valueOf'', ''__proto__'',
      ''__defineGetter__'', ''__defineSetter__'', ''__lookupGetter__'', ''__lookupSetter__'']"

text \<open>\<^verbatim>\<open>tipId in CustomTipId\<close>.\<close>

definition inCustomTipId :: "string \<Rightarrow> bool" where
  "inCustomTipId k = (k \<in> set customTipIdKeys \<or> k \<in> set objectPrototypeKeys)"



datatype CustomTipSeverity = Warning | Error | Info

datatype CustomTipType = rush | pnpm

record ICustomTipItemJson =
  tipId :: string
  message :: string

record ICustomTipsJson =
  customTips :: "ICustomTipItemJson list option"

text \<open>The static registry; the \<^verbatim>\<open>isMatch\<close> predicates are read by none of the
  operations below and are left out.\<close>

record ICustomTipInfo =
  infoTipId :: CustomTipId
  severity :: CustomTipSeverity
  tipType :: CustomTipType

fun customTipRegistry :: "CustomTipId \<Rightarrow> ICustomTipInfo" where
  "customTipRegistry TIP_RUSH_INCONSISTENT_VERSIONS =
     \<lparr>infoTipId = TIP_RUSH_INCONSISTENT_VERSIONS, severity = Error, tipType = rush\<rparr>"
| "customTipRegistry TIP_PNPM_UNEXPECTED_STORE =
     \<lparr>infoTipId = TIP_PNPM_UNEXPECTED_STORE, severity = Error, tipType = pnpm\<rparr>"
| "customTipRegistry TIP_PNPM_NO_MATCHING_VERSION =
     \<lparr>infoTipId = TIP_PNPM_NO_MATCHING_VERSION, severity = Error, tipType = pnpm\<rparr>"
| "customTipRegistry TIP_PNPM_NO_MATCHING_VERSION_INSIDE_WORKSPACE =
     \<lparr>infoTipId = TIP_PNPM_NO_MATCHING_VERSION_INSIDE_WORKSPACE, severity = Error, tipType = pnpm\<rparr>"
| "customTipRegistry TIP_PNPM_PEER_DEP_ISSUES =
     \<lparr>infoTipId = TIP_PNPM_PEER_DEP_ISSUES, severity = Error, tipType = pnpm\<rparr>"
| "customTipRegistry TIP_PNPM_OUTDATED_LOCKFILE =
     \<lparr>infoTipId = TIP_PNPM_OUTDATED_LOCKFILE, severity = Error, tipType = pnpm\<rparr>"
| "customTipRegistry TIP_PNPM_TARBALL_INTEGRITY =
     \<lparr>infoTipId = TIP_PNPM_TARBALL_INTEGRITY, severity = Error, tipType = pnpm\<rparr>"
| "customTipRegistry TIP_PNPM_MISMATCHED_RELEASE_CHANNEL =
     \<lparr>infoTipId = TIP_PNPM_MISMATCHED_RELEASE_CHANNEL, severity = Error, tipType = pnpm\<rparr>"
| "customTipRegistry TIP_PNPM_INVALID_NODE_VERSION =
     \<lparr>infoTipId = TIP_PNPM_INVALID_NODE_VERSION, severity = Error, tipType = pnpm\<rparr>"

subsection \<open>The constructor of CustomTipsConfiguration\<close>

type_synonym tipMap = "(string \<times> ICustomTipItemJson) list"

record CustomTipsConfiguration =
  tipMap :: tipMap
  jsonFileName :: string
  configuration :: ICustomTipsJson

text \<open>Either \<^verbatim>\<open>JsonFile.loadAndValidate\<close> failed, or the constructor threw an
  \<^verbatim>\<open>Error\<close> with the given message.\<close>

datatype tips_error = LoadAndValidateFailed string | Thrown string

definition unknownIdMessage :: "string \<Rightarrow> string \<Rightarrow> string" where
  "unknownIdMessage base tid =
     ''The '' @ base @ '' configuration'' @ '' references an unknown ID '' @ [CHR 0x22] @ tid @ [CHR 0x22]"

definition duplicateIdMessage :: "string \<Rightarrow> string \<Rightarrow> string" where
  "duplicateIdMessage base tid =
     ''The '' @ base @ '' configuration'' @ '' specifies a duplicate definition for ''
       @ [CHR 0x22] @ tid @ [CHR 0x22]"

text \<open>The \<^verbatim>\<open>for\<close> loop over \<^verbatim>\<open>customTips\<close>; \<open>base\<close> is
  \<^verbatim>\<open>path.basename(this._jsonFileName)\<close>. \<^verbatim>\<open>Map.has\<close> is \<open>map_of m k \<noteq> None\<close>,
  \<^verbatim>\<open>Map.set\<close> is \<open>AList.update\<close>, which keeps the order of insertion.\<close>

fun registerCustomTips ::
  "string \<Rightarrow> ICustomTipItemJson list \<Rightarrow> tipMap \<Rightarrow> tips_error + tipMap" where
  "registerCustomTips base [] m = Inr m"
| "registerCustomTips base (tipItem # rest) m =
     (if \<not> inCustomTipId (tipId tipItem)
      then Inl (Thrown (unknownIdMessage base (tipId tipItem)))
      else if map_of m (tipId tipItem) \<noteq> None
      then Inl (Thrown (duplicateIdMessage base (tipId tipItem)))
      else registerCustomTips base rest (AList.update (tipId tipItem) tipItem m))"

text \<open>
  The constructor. \<^verbatim>\<open>FileSystem.exists\<close>, \<^verbatim>\<open>JsonFile.loadAndValidate\<close> (with \<open>None\<close>
  for a thrown load or schema error) and \<^verbatim>\<open>path.basename\<close> are parameters.
\<close>

definition newCustomTipsConfiguration ::
  "(string \<Rightarrow> bool) \<Rightarrow> (string \<Rightarrow> ICustomTipsJson option) \<Rightarrow> (string \<Rightarrow> string) \<Rightarrow> string
     \<Rightarrow> tips_error + CustomTipsConfiguration" where
  "newCustomTipsConfiguration fileExists loadAndValidate basename configFilename =
     (if \<not> fileExists configFilename
      then Inr \<lparr>tipMap = [], jsonFileName = configFilename,
                configuration = \<lparr>customTips = None\<rparr>\<rparr>
      else
        (case loadAndValidate configFilename of
           None \<Rightarrow> Inl (LoadAndValidateFailed configFilename)
         | Some config \<Rightarrow>
             (case customTips config of
                None \<Rightarrow> Inr \<lparr>tipMap = [], jsonFileName = configFilename, configuration = config\<rparr>
              | Some tips \<Rightarrow>
                  (case registerCustomTips (basename configFilename) tips [] of
                     Inl e \<Rightarrow> Inl e
                   | Inr m \<Rightarrow>
                       Inr \<lparr>tipMap = m, jsonFileName = configFilename,
                            configuration = config\<rparr>))))"

subsection \<open>Showing a tip\<close>

text \<open>The terminal is observed through the calls made on \<^verbatim>\<open>ITerminal\<close>, oldest first.\<close>

datatype terminal_call =
    Write string
  | WriteLine string
  | WriteError string
  | WriteErrorLine string
  | WriteWarning string
  | WriteWarningLine string

type_synonym terminal = "terminal_call list"

text \<open>What a call prints: the \<^verbatim>\<open>...Line\<close> methods end the text with a line feed.\<close>

fun callText :: "terminal_call \<Rightarrow> string" where
  "callText (Write s) = s"
| "callText (WriteLine s) = s @ [newline]"
| "callText (WriteError s) = s"
| "callText (WriteErrorLine s) = s @ [newline]"
| "callText (WriteWarning s) = s"
| "callText (WriteWarningLine s) = s @ [newline]"

definition printed :: "terminal \<Rightarrow> string" where
  "printed t = concat (map callText t)"

definition formatMessageHeader :: "CustomTipId \<Rightarrow> string" where
  "formatMessageHeader tid = ''| Custom Tip ('' @ tipIdString tid @ '')'' @ [newline] @ ''|''"

text \<open>\<^verbatim>\<open>line.replace(/^ {2}/, '')\<close>.\<close>

fun removeIndent :: "string \<Rightarrow> string" where
  "removeIndent (a # b # rest) = (if a = CHR '' '' \<and> b = CHR '' '' then rest else a # b # rest)"
| "removeIndent line = line"

text \<open>First \<^verbatim>\<open>switch\<close> of \<^verbatim>\<open>_writeMessageWithPipes\<close>.\<close>

fun writeHeader :: "CustomTipSeverity \<Rightarrow> string \<Rightarrow> terminal \<Rightarrow> terminal" where
  "writeHeader Error messageHeader t = t @ [WriteErrorLine messageHeader]"
| "writeHeader Warning messageHeader t = t @ [WriteWarningLine messageHeader]"
| "writeHeader Info messageHeader t = t @ [WriteLine messageHeader]"

text \<open>Second \<^verbatim>\<open>switch\<close>, inside the loop over the lines.\<close>

fun writeMargin :: "CustomTipSeverity \<Rightarrow> terminal \<Rightarrow> terminal" where
  "writeMargin Error t = t @ [WriteError ''| '']"
| "writeMargin Warning t = t @ [WriteWarning ''| '']"
| "writeMargin Info t = t @ [WriteLine ''| '']"

text \<open>What the margin call leaves on the terminal.\<close>

fun marginText :: "CustomTipSeverity \<Rightarrow> string" where
  "marginText Error = ''| ''"
| "marginText Warning = ''| ''"
| "marginText Info = ''| '' @ [newline]"

text \<open>The body of the \<^verbatim>\<open>forEach\<close> callback.\<close>

definition writeMessageLine :: "CustomTipSeverity \<Rightarrow> terminal \<Rightarrow> string \<Rightarrow> terminal" where
  "writeMessageLine sev t line = writeMargin sev t @ [WriteLine (removeIndent line)]"

text \<open>
  \<^verbatim>\<open>_writeMessageWithPipes\<close>. \<^verbatim>\<open>PrintUtilities.wrapWords(text, maxLineLength, indent)\<close>
  is a parameter.
\<close>

definition writeMessageWithPipes ::
  "(string \<Rightarrow> nat option \<Rightarrow> nat \<Rightarrow> string) \<Rightarrow> CustomTipsConfiguration \<Rightarrow> terminal
     \<Rightarrow> CustomTipSeverity \<Rightarrow> CustomTipId \<Rightarrow> terminal" where
  "writeMessageWithPipes wrapWords this t sev tid =
     (let messageHeader = formatMessageHeader tid in
      case map_of (tipMap this) (tipIdString tid) of
        None \<Rightarrow> t
      | Some customTipJsonItem \<Rightarrow>
          (let wrappedAndIndentedMessage = wrapWords (message customTipJsonItem) None 2
           in foldl (writeMessageLine sev) (writeHeader sev messageHeader t)
                (splitLines wrappedAndIndentedMessage)
              @ [Write [newline]]))"

definition showTip ::
  "(string \<Rightarrow> nat option \<Rightarrow> nat \<Rightarrow> string) \<Rightarrow> CustomTipsConfiguration \<Rightarrow> terminal
     \<Rightarrow> CustomTipId \<Rightarrow> terminal" where
  "showTip wrapWords this t tid =
     (case map_of (tipMap this) (tipIdString tid) of
        None \<Rightarrow> t
      | Some customTipJsonItem \<Rightarrow>
          writeMessageWithPipes wrapWords this t (severity (customTipRegistry tid)) tid)"

definition showInfoTip ::
  "(string \<Rightarrow> nat option \<Rightarrow> nat \<Rightarrow> string) \<Rightarrow> CustomTipsConfiguration \<Rightarrow> terminal
     \<Rightarrow> CustomTipId \<Rightarrow> terminal" where
  "showInfoTip wrapWords this t tid = writeMessageWithPipes wrapWords this t Info tid"

definition showWarningTip ::
  "(string \<Rightarrow> nat option \<Rightarrow> nat \<Rightarrow> string) \<Rightarrow> CustomTipsConfiguration \<Rightarrow> terminal
     \<Rightarrow> CustomTipId \<Rightarrow> terminal" where
  "showWarningTip wrapWords this t tid = writeMessageWithPipes wrapWords this t Warning tid"

definition showErrorTip ::
  "(string \<Rightarrow> nat option \<Rightarrow> nat \<Rightarrow> string) \<Rightarrow> CustomTipsConfiguration \<Rightarrow> terminal
     \<Rightarrow> CustomTipId \<Rightarrow> terminal" where
  "showErrorTip wrapWords this t tid = writeMessageWithPipes wrapWords this t Error tid"

section \<open>Concrete collaborators for the worked examples\<close>

text \<open>
  Modelled from the spec: \<^verbatim>\<open>JsonFile.stringify\<close> is not part of the sources. This is the
  layout of the spec's persisted file format (one field per line, indented by two spaces, a
  final line feed), for an object whose values are strings that need no escaping. The
  theorems below take the stringifier as a parameter; this one only serves the closed
  examples.
\<close>

definition stringifyField :: "string \<times> json \<Rightarrow> string" where
  "stringifyField kv =
     ''  '' @ [CHR 0x22] @ fst kv @ [CHR 0x22] @ '': '' @
     (case snd kv of JStr v \<Rightarrow> [CHR 0x22] @ v @ [CHR 0x22] | _ \<Rightarrow> ''null'')"

fun joinLines :: "string list \<Rightarrow> string" where
  "joinLines [] = []"
| "joinLines [l] = l @ [newline]"
| "joinLines (l # ls) = l @ '','' @ [newline] @ joinLines ls"

fun stringifyExample :: "json \<Rightarrow> string" where
  "stringifyExample (JObj []) = ''{}'' @ [newline]"
| "stringifyExample (JObj kvs) = ''{'' @ [newline] @ joinLines (map stringifyField kvs) @ ''}'' @ [newline]"
| "stringifyExample j = ''null'' @ [newline]"

text \<open>A test environment: no lockfile can be located.\<close>

definition envNoLockfile :: Collaborators where
  "envNoLockfile =
     \<lparr>PnpmShrinkwrapFile_loadFromFile = (\<lambda>filename opts. None),
      JsonFile_stringify = stringifyExample\<rparr>"

text \<open>A test environment: every lockfile exists and hashes to \<open>abc\<close>.\<close>

definition envLockfileAbc :: Collaborators where
  "envLockfileAbc =
     \<lparr>PnpmShrinkwrapFile_loadFromFile =
        (\<lambda>filename opts. Some \<lparr>getShrinkwrapHash = (\<lambda>omitImporters. ''abc'')\<rparr>),
      JsonFile_stringify = stringifyExample\<rparr>"

text \<open>A pnpm configuration with the two feature flags as given; the preferred-versions
  hash is \<open>pv1\<close>.\<close>

definition exampleConfiguration :: "bool \<Rightarrow> bool \<Rightarrow> RushConfiguration" where
  "exampleConfiguration lockfileTracking workspaceTracking =
     \<lparr>packageManager = ''pnpm'',
      pnpmOptions = Some \<lparr>preventManualShrinkwrapChanges = lockfileTracking,
                          useWorkspaces = workspaceTracking\<rparr>,
      omitImportersFromPreventManualShrinkwrapChanges = None,
      getCommittedShrinkwrapFilename = (\<lambda>v. ''common/config/rush/pnpm-lock.yaml''),
      getCommonVersions = (\<lambda>v. \<lparr>getPreferredVersionsHash = ''pv1''\<rparr>)\<rparr>"

definition exampleTracker :: "string option \<Rightarrow> string option \<Rightarrow> RepoStateFile" where
  "exampleTracker shrinkwrapHash preferredHash =
     \<lparr>repoStateFilePath = ''common/config/rush/repo-state.json'', variant = None,
      pnpmShrinkwrapHash = shrinkwrapHash, preferredVersionsHash = preferredHash,
      isValid = True, modified = False\<rparr>"

text \<open>A parser outcome for the examples of unparsable content: the parse error.\<close>

definition parseFails :: "string \<Rightarrow> json option" where
  "parseFails fileContents = None"

text \<open>A parser outcome for the round-trip examples: the banner followed by the text of
  \<open>j\<close> parses to \<open>j\<close>.\<close>

definition parseWritten :: "json \<Rightarrow> string \<Rightarrow> json option" where
  "parseWritten j fileContents =
     (if fileContents = banner @ [newline] @ stringifyExample j then Some j else None)"


text \<open>\<^verbatim>\<open>PrintUtilities.wrapWords\<close> on a message that fits on one line: the message behind
  its indent.\<close>

definition wrapWordsExample :: "string \<Rightarrow> nat option \<Rightarrow> nat \<Rightarrow> string" where
  "wrapWordsExample text maxLineLength indent = replicate indent (CHR '' '') @ text"

section \<open>Properties of the merge-conflict scan\<close>

lemma takeWhile_stops_early:
  "ch \<in> set xs \<Longrightarrow> length (takeWhile (\<lambda>x. x \<noteq> ch) xs) < length xs"
  by (induction xs) auto

lemma splitLines_nonempty: "splitLines s \<noteq> []"
  by (induction s) (auto split: list.splits)

lemma splitLines_unfold:
  "splitLines s = takeWhile (\<lambda>x. x \<noteq> newline) s #
     (case dropWhile (\<lambda>x. x \<noteq> newline) s of [] \<Rightarrow> [] | c # r \<Rightarrow> splitLines r)"
proof (induction s)
  case Nil show ?case by simp
next
  case (Cons c cs)
  show ?case
  proof (cases "c = newline")
    case True then show ?thesis by simp
  next
    case False
    then show ?thesis using Cons splitLines_nonempty[of cs] by (auto split: list.splits)
  qed
qed

lemma marker_no_newline: "newline \<notin> set conflictMarker"
  by (simp add: conflictMarker_def newline_def)

lemma marker_length: "length conflictMarker = 7"
  by (simp add: conflictMarker_def)

lemma take7_first_line:
  "(take 7 (takeWhile (\<lambda>x. x \<noteq> newline) r) = conflictMarker) = (take 7 r = conflictMarker)"
proof
  assume a: "take 7 (takeWhile (\<lambda>x. x \<noteq> newline) r) = conflictMarker"
  then have len: "7 \<le> length (takeWhile (\<lambda>x. x \<noteq> newline) r)"
    using marker_length by (metis length_take min.cobounded1)
  have "r = takeWhile (\<lambda>x. x \<noteq> newline) r @ dropWhile (\<lambda>x. x \<noteq> newline) r"
    by simp
  then have "take 7 r = take 7 (takeWhile (\<lambda>x. x \<noteq> newline) r)"
    using len by (metis take_append diff_is_0_eq take_0 append_Nil2)
  then show "take 7 r = conflictMarker" using a by simp
next
  assume a: "take 7 r = conflictMarker"
  have r: "r = conflictMarker @ drop 7 r"
    using a by (metis append_take_drop_id)
  have "takeWhile (\<lambda>x. x \<noteq> newline) (conflictMarker @ drop 7 r)
          = conflictMarker @ takeWhile (\<lambda>x. x \<noteq> newline) (drop 7 r)"
    using marker_no_newline by (intro takeWhile_append2) auto
  then have "take 7 (takeWhile (\<lambda>x. x \<noteq> newline) (conflictMarker @ drop 7 r)) = conflictMarker"
    using marker_length by simp
  then show "take 7 (takeWhile (\<lambda>x. x \<noteq> newline) r) = conflictMarker"
    using r by simp
qed

lemma hasConflictMarkerLine_unfold:
  "hasConflictMarkerLine r =
     (take 7 r = conflictMarker \<or>
      (case dropWhile (\<lambda>x. x \<noteq> newline) r of [] \<Rightarrow> False | c # r' \<Rightarrow> hasConflictMarkerLine r'))"
proof (cases "dropWhile (\<lambda>x. x \<noteq> newline) r")
  case Nil
  have "splitLines r = [takeWhile (\<lambda>x. x \<noteq> newline) r]"
    by (subst splitLines_unfold) (simp only: Nil list.case)
  then show ?thesis
    by (simp only: hasConflictMarkerLine_def Nil list.case list_ex_Nil_iff list_ex_Cons_iff simp_thms take7_first_line)
next
  case (Cons c r')
  have "splitLines r = takeWhile (\<lambda>x. x \<noteq> newline) r # splitLines r'"
    by (subst splitLines_unfold) (simp only: Cons list.case)
  then show ?thesis
    by (simp only: hasConflictMarkerLine_def Cons list.case list_ex_Nil_iff list_ex_Cons_iff simp_thms take7_first_line)
qed

lemma dropWhile_as_drop:
  "dropWhile P xs = drop (length (takeWhile P xs)) xs"
  by (induction xs) auto

lemma findMergeConflictMarker_lines:
  "0 \<le> n \<Longrightarrow> findMergeConflictMarker s n = hasConflictMarkerLine (drop (nat n + 1) s)"
proof (induction s n rule: findMergeConflictMarker.induct)
  case (1 s n)
  define r where "r = drop (nat n + 1) s"
  have k0: "nat (max 0 (n + 1)) = nat n + 1" using "1.prems" by simp
  have sub: "substr s (n + 1) 7 = take 7 r"
    using "1.prems" by (simp add: substr_def r_def nat_add_distrib)
  show ?case
  proof (cases "take 7 r = conflictMarker")
    case True
    then show ?thesis
      using sub "1.prems" r_def
      by (subst findMergeConflictMarker.simps, subst hasConflictMarkerLine_unfold) simp
  next
    case nomark: False
    show ?thesis
    proof (cases "newline \<in> set r")
      case False
      then have idx: "indexOf s newline (n + 1) = - 1"
        by (simp add: indexOf_def Let_def k0 r_def)
      have dw: "dropWhile (\<lambda>x. x \<noteq> newline) r = []"
        using False by (auto simp add: dropWhile_eq_Nil_conv)
      have "findMergeConflictMarker s n = False"
        using nomark sub idx "1.prems"
        by (subst findMergeConflictMarker.simps) (simp add: findMergeConflictMarker.simps)
      moreover have "hasConflictMarkerLine r = False"
        by (subst hasConflictMarkerLine_unfold) (simp only: dw list.case nomark simp_thms)
      ultimately show ?thesis by (simp add: r_def)
    next
      case True
      define k where "k = length (takeWhile (\<lambda>x. x \<noteq> newline) r)"
      have idx: "indexOf s newline (n + 1) = int (nat n + 1 + k)"
        using True by (simp add: indexOf_def Let_def k0 r_def k_def)
      have klt: "k < length r" using True k_def by (simp add: takeWhile_stops_early)
      have dw: "dropWhile (\<lambda>x. x \<noteq> newline) r = r ! k # drop (k + 1) r"
        using klt by (simp add: dropWhile_as_drop k_def Cons_nth_drop_Suc)
      have ih: "findMergeConflictMarker s (int (nat n + 1 + k))
                  = hasConflictMarkerLine (drop (nat (int (nat n + 1 + k)) + 1) s)"
        using "1.IH" "1.prems" nomark sub idx by simp
      have dr: "drop (nat (int (nat n + 1 + k)) + 1) s = drop (k + 1) r"
      proof -
        have "nat (int (nat n + 1 + k)) = nat n + 1 + k"
          by (rule nat_int)
        then have "nat (int (nat n + 1 + k)) + 1 = (k + 1) + (nat n + 1)"
          by linarith
        then show ?thesis by (simp only: r_def drop_drop)
      qed
      have "findMergeConflictMarker s n = findMergeConflictMarker s (int (nat n + 1 + k))"
        using nomark sub idx "1.prems"
        by (subst findMergeConflictMarker.simps) simp
      moreover have "hasConflictMarkerLine r = hasConflictMarkerLine (drop (k + 1) r)"
        by (subst hasConflictMarkerLine_unfold) (simp only: dw list.case nomark simp_thms)
      ultimately show ?thesis using ih dr by (simp add: r_def)
    qed
  qed
qed

lemma scan_skips_first_character:
  "findMergeConflictMarker s 0 = hasConflictMarkerLine (drop 1 s)"
  using findMergeConflictMarker_lines [of 0 s] by simp


lemma first_line_of_splitLines:
  "splitLines r = takeWhile (\<lambda>x. x \<noteq> newline) r # tl (splitLines r)"
proof -
  have "splitLines r = takeWhile (\<lambda>x. x \<noteq> newline) r #
     (case dropWhile (\<lambda>x. x \<noteq> newline) r of [] \<Rightarrow> [] | c # r' \<Rightarrow> splitLines r')"
    by (rule splitLines_unfold)
  then show ?thesis by (cases "splitLines r") auto
qed

lemma marker_line_of_tail:
  "hasConflictMarkerLine (drop 1 c) \<Longrightarrow> take 7 (drop 1 c) = conflictMarker \<or> hasConflictMarkerLine c"
proof (cases c)
  case Nil
  assume "hasConflictMarkerLine (drop 1 c)"
  then show ?thesis using Nil by simp
next
  case (Cons x r)
  assume a: "hasConflictMarkerLine (drop 1 c)"
  then have hr: "hasConflictMarkerLine r" using Cons by simp
  show ?thesis
  proof (cases "x = newline")
    case True
    then show ?thesis using hr Cons by (simp add: hasConflictMarkerLine_def)
  next
    case False
    obtain l ls where sp: "splitLines r = l # ls"
      using splitLines_nonempty [of r] by (cases "splitLines r") auto
    have l: "l = takeWhile (\<lambda>x. x \<noteq> newline) r"
      using first_line_of_splitLines [of r] sp by simp
    have "take 7 l = conflictMarker \<or> list_ex (\<lambda>l. take 7 l = conflictMarker) ls"
      using hr sp by (simp add: hasConflictMarkerLine_def)
    then show ?thesis
    proof
      assume "take 7 l = conflictMarker"
      then have "take 7 r = conflictMarker" using l take7_first_line by simp
      then show ?thesis using Cons by simp
    next
      assume "list_ex (\<lambda>l. take 7 l = conflictMarker) ls"
      then show ?thesis using Cons False sp by (simp add: hasConflictMarkerLine_def)
    qed
  qed
qed

lemma scan_without_marker_line:
  "\<not> hasConflictMarkerLine c \<Longrightarrow>
     findMergeConflictMarker c 0 = (take 7 (drop 1 c) = conflictMarker)"
  using marker_line_of_tail [of c] hasConflictMarkerLine_unfold [of "drop 1 c"]
  by (auto simp add: scan_skips_first_character)

lemma validate_invalidRepoStateJson: "validateObject invalidRepoStateJson"
  by (simp add: invalidRepoStateJson_def)

lemma load_parse_failure:
  assumes "parseString c = None"
  shows "loadFromFile parseString (\<lambda>p. FileContents c) fn v =
           Inr (if c \<noteq> [] \<and> findMergeConflictMarker c 0
                then \<lparr>repoStateFilePath = fn, variant = v,
                      pnpmShrinkwrapHash = Some ''INVALID'', preferredVersionsHash = Some ''INVALID'',
                      isValid = False, modified = False\<rparr>
                else \<lparr>repoStateFilePath = fn, variant = v,
                      pnpmShrinkwrapHash = None, preferredVersionsHash = None,
                      isValid = True, modified = False\<rparr>)"
  using assms
  by (simp add: loadFromFile_def newRepoStateFile_def invalidRepoStateJson_def)

lemma load_conflict_after_first_character:
  assumes "parseString c = None" and "hasConflictMarkerLine (drop 1 c)"
  shows "loadFromFile parseString (\<lambda>p. FileContents c) fn v =
           Inr \<lparr>repoStateFilePath = fn, variant = v,
                pnpmShrinkwrapHash = Some ''INVALID'', preferredVersionsHash = Some ''INVALID'',
                isValid = False, modified = False\<rparr>"
proof -
  have "c \<noteq> []"
    using assms(2) by (auto simp add: hasConflictMarkerLine_def conflictMarker_def)
  then show ?thesis
    using load_parse_failure [of parseString c fn v] assms
    by (simp add: scan_skips_first_character)
qed

section \<open>Loading the tracker\<close>

text \<open>
  C1, as the spec states it: content that does not parse and has no line beginning with
  \<open><<<<<<<\<close> makes \<^verbatim>\<open>loadFromFile\<close> raise. It does not: the \<^verbatim>\<open>catch\<close> block never
  rethrows. For the content \<open>{ not json\<close>, which the parser rejects and which has no marker
  line, \<^verbatim>\<open>loadFromFile\<close> returns a tracker with both hashes absent and \<open>isValid = true\<close>.
\<close>

theorem unparsable_content_is_not_fatal:
  "parseFails ''{ not json'' = None \<and> \<not> hasConflictMarkerLine ''{ not json'' \<and>
   loadFromFile parseFails (\<lambda>p. FileContents ''{ not json'') ''repo-state.json'' None =
     Inr \<lparr>repoStateFilePath = ''repo-state.json'', variant = None,
          pnpmShrinkwrapHash = None, preferredVersionsHash = None,
          isValid = True, modified = False\<rparr>"
proof -
  have p: "parseFails ''{ not json'' = None" by (simp add: parseFails_def)
  have m: "\<not> hasConflictMarkerLine ''{ not json''"
    by (simp add: hasConflictMarkerLine_def conflictMarker_def newline_def)
  have s: "\<not> findMergeConflictMarker ''{ not json'' 0"
    by (simp add: scan_skips_first_character hasConflictMarkerLine_def conflictMarker_def newline_def)
  show ?thesis
    using load_parse_failure [of parseFails "''{ not json''" "''repo-state.json''" None] p m s
    by simp
qed


text \<open>
  C1, amended: for every content that does not parse, has no line beginning with
  \<open><<<<<<<\<close> and does not hold \<open><<<<<<<\<close> at offset 1, \<^verbatim>\<open>loadFromFile\<close> raises nothing:
  the parse failure is swallowed and the result is a tracker with both hashes absent and
  \<open>isValid = true\<close>.
\<close>

theorem load_unparsable_without_marker_line:
  assumes "parseString c = None" and "\<not> hasConflictMarkerLine c"
      and "take 7 (drop 1 c) \<noteq> conflictMarker"
  shows "loadFromFile parseString (\<lambda>p. FileContents c) fn v =
           Inr \<lparr>repoStateFilePath = fn, variant = v,
                pnpmShrinkwrapHash = None, preferredVersionsHash = None,
                isValid = True, modified = False\<rparr>"
proof -
  have "\<not> findMergeConflictMarker c 0"
    using scan_without_marker_line [OF assms(2)] assms(3) by simp
  then show ?thesis
    using load_parse_failure [of parseString c fn v] assms(1) by simp
qed

text \<open>C1, amended, at the content \<open>{,}\<close>.\<close>

theorem load_unparsable_without_marker_line_witness:
  "parseFails ''{,}'' = None \<and> \<not> hasConflictMarkerLine ''{,}'' \<and>
   take 7 (drop 1 ''{,}'') \<noteq> conflictMarker \<and>
   loadFromFile parseFails (\<lambda>p. FileContents ''{,}'') ''repo-state.json'' None =
     Inr \<lparr>repoStateFilePath = ''repo-state.json'', variant = None,
          pnpmShrinkwrapHash = None, preferredVersionsHash = None,
          isValid = True, modified = False\<rparr>"
proof -
  have p: "parseFails ''{,}'' = None" by (simp add: parseFails_def)
  have m: "\<not> hasConflictMarkerLine ''{,}''"
    by (simp add: hasConflictMarkerLine_def conflictMarker_def newline_def)
  have o: "take 7 (drop 1 ''{,}'') \<noteq> conflictMarker"
    by (simp add: conflictMarker_def)
  show ?thesis
    using load_unparsable_without_marker_line [of parseFails "''{,}''"
        "''repo-state.json''" None] p m o
    by simp
qed

text \<open>
  C2: content with a line starting with \<open><<<<<<<\<close>, the first line included, loads as the
  merge-conflict tracker. The scan tests offset 1 first, never offset 0, so a marker that
  opens the file is missed: the content below has the marker on its first line, does not
  parse, and loads with both hashes absent and \<open>isValid = true\<close>.
\<close>

theorem marker_on_first_line_is_missed:
  "hasConflictMarkerLine
     (''<<<<<<< HEAD'' @ [newline] @ ''{}'' @ [newline] @ ''======='' @ [newline] @ ''{}''
        @ [newline] @ ''>>>>>>> theirs'' @ [newline]) \<and>
   loadFromFile parseFails
     (\<lambda>p. FileContents
        (''<<<<<<< HEAD'' @ [newline] @ ''{}'' @ [newline] @ ''======='' @ [newline] @ ''{}''
           @ [newline] @ ''>>>>>>> theirs'' @ [newline]))
     ''repo-state.json'' None =
     Inr \<lparr>repoStateFilePath = ''repo-state.json'', variant = None,
          pnpmShrinkwrapHash = None, preferredVersionsHash = None,
          isValid = True, modified = False\<rparr>"
proof -
  let ?c = "''<<<<<<< HEAD'' @ [newline] @ ''{}'' @ [newline] @ ''======='' @ [newline] @ ''{}''
        @ [newline] @ ''>>>>>>> theirs'' @ [newline]"
  have m: "hasConflictMarkerLine ?c"
    by (simp add: hasConflictMarkerLine_def conflictMarker_def newline_def)
  have s: "\<not> findMergeConflictMarker ?c 0"
    by (simp add: scan_skips_first_character hasConflictMarkerLine_def conflictMarker_def
        newline_def)
  have p: "parseFails ?c = None" by (simp add: parseFails_def)
  show ?thesis
    using load_parse_failure [of parseFails ?c "''repo-state.json''" None] p m s
    by simp
qed

section \<open>Properties of refreshState\<close>

lemma refreshShrinkwrapHash_frame:
  "repoStateFilePath (refreshShrinkwrapHash env cfg this) = repoStateFilePath this \<and>
   variant (refreshShrinkwrapHash env cfg this) = variant this \<and>
   preferredVersionsHash (refreshShrinkwrapHash env cfg this) = preferredVersionsHash this \<and>
   isValid (refreshShrinkwrapHash env cfg this) = isValid this"
  by (simp add: refreshShrinkwrapHash_def Let_def split: option.splits)

lemma refreshPreferredVersionsHash_frame:
  "repoStateFilePath (refreshPreferredVersionsHash cfg this) = repoStateFilePath this \<and>
   variant (refreshPreferredVersionsHash cfg this) = variant this \<and>
   pnpmShrinkwrapHash (refreshPreferredVersionsHash cfg this) = pnpmShrinkwrapHash this \<and>
   isValid (refreshPreferredVersionsHash cfg this) = isValid this"
  by (simp add: refreshPreferredVersionsHash_def Let_def)

lemma fileContent_ignores_flags:
  "fileContent env (this\<lparr>modified := b\<rparr>) = fileContent env this"
  "fileContent env (this\<lparr>isValid := b\<rparr>) = fileContent env this"
  by (simp_all add: fileContent_def serialize_def serializedJson_def)

lemma refreshState_unfold:
  "refreshState env cfg (this, d) =
     (let r = reconciled env cfg this in
      if modified r
      then (True, r\<lparr>modified := False\<rparr>, d @ [(repoStateFilePath this, fileContent env r)])
      else (False, r, d))"
proof -
  have "repoStateFilePath (reconciled env cfg this) = repoStateFilePath this"
    by (simp add: reconciled_def refreshShrinkwrapHash_frame refreshPreferredVersionsHash_frame)
  then show ?thesis
    by (simp add: refreshState_def saveIfModified_def Let_def writeFile_def)
qed

lemma refreshShrinkwrapHash_stable:
  assumes "pnpmShrinkwrapHash t = pnpmShrinkwrapHash (refreshShrinkwrapHash env cfg this)"
      and "variant t = variant this"
  shows "refreshShrinkwrapHash env cfg t = t"
  using assms
  by (simp add: refreshShrinkwrapHash_def committedShrinkwrapFile_def Let_def
      split: option.splits if_splits)

lemma refreshPreferredVersionsHash_stable:
  assumes "preferredVersionsHash t = preferredVersionsHash (refreshPreferredVersionsHash cfg this)"
      and "variant t = variant this"
  shows "refreshPreferredVersionsHash cfg t = t"
  using assms
  by (simp add: refreshPreferredVersionsHash_def Let_def split: if_splits)

lemma reconciled_stable:
  "reconciled env cfg ((reconciled env cfg this)\<lparr>modified := b\<rparr>) = (reconciled env cfg this)\<lparr>modified := b\<rparr>"
proof -
  let ?r = "(reconciled env cfg this)\<lparr>modified := b\<rparr>"
  have 1: "refreshShrinkwrapHash env cfg ?r = ?r"
    by (rule refreshShrinkwrapHash_stable [where this = this])
       (simp_all add: reconciled_def refreshShrinkwrapHash_frame refreshPreferredVersionsHash_frame)
  have 2: "refreshPreferredVersionsHash cfg ?r = ?r"
    by (rule refreshPreferredVersionsHash_stable [where this = "refreshShrinkwrapHash env cfg this"])
       (simp_all add: reconciled_def refreshShrinkwrapHash_frame refreshPreferredVersionsHash_frame)
  have 3: "isValid ?r = True" by (simp add: reconciled_def)
  show ?thesis
    unfolding reconciled_def [of env cfg ?r] 1 2 using 3 by simp
qed

lemma strProp_serializedJson:
  "strProp (serializedJson this) ''pnpmShrinkwrapHash'' = omitEmpty (pnpmShrinkwrapHash this)"
  "strProp (serializedJson this) ''preferredVersionsHash'' = omitEmpty (preferredVersionsHash this)"
  by (cases "pnpmShrinkwrapHash this"; cases "preferredVersionsHash this";
      simp add: serializedJson_def)+

lemma reconciled_pnpmShrinkwrapHash:
  "pnpmShrinkwrapHash (reconciled env cfg this) =
     (if preventShrinkwrapChanges cfg then
        (case committedShrinkwrapFile env cfg this of
           Some f \<Rightarrow> Some (getShrinkwrapHash f (omitImportersFromPreventManualShrinkwrapChanges cfg))
         | None \<Rightarrow> pnpmShrinkwrapHash this)
      else None)"
  by (simp add: reconciled_def refreshPreferredVersionsHash_frame refreshShrinkwrapHash_def Let_def
      split: option.splits)

lemma reconciled_preferredVersionsHash:
  "preferredVersionsHash (reconciled env cfg this) =
     (if useWorkspacesEnabled cfg
      then Some (getPreferredVersionsHash (getCommonVersions cfg (variant this)))
      else None)"
  by (simp add: reconciled_def refreshPreferredVersionsHash_def refreshShrinkwrapHash_frame Let_def)

lemma reconciled_unmodified:
  assumes "\<not> modified this" and "\<not> modified (reconciled env cfg this)"
  shows "pnpmShrinkwrapHash (reconciled env cfg this) = pnpmShrinkwrapHash this \<and>
         preferredVersionsHash (reconciled env cfg this) = preferredVersionsHash this"
  using assms
  by (auto simp add: reconciled_def refreshPreferredVersionsHash_def refreshShrinkwrapHash_def Let_def
      split: option.splits if_splits)

lemma refreshState_result:
  assumes "refreshState env cfg (this, d) = (w, this', d')"
  shows "w = modified (reconciled env cfg this)"
    and "this' = (reconciled env cfg this)\<lparr>modified := False\<rparr>"
    and "d' = (if w then d @ [(repoStateFilePath this, fileContent env this')] else d)"
  using assms
  by (auto simp add: refreshState_unfold Let_def fileContent_ignores_flags split: if_splits)

lemma example_flags [simp]:
  "preventShrinkwrapChanges (exampleConfiguration a b) = a"
  "useWorkspacesEnabled (exampleConfiguration a b) = b"
  "getCommonVersions (exampleConfiguration a b) v = \<lparr>getPreferredVersionsHash = ''pv1''\<rparr>"
  "omitImportersFromPreventManualShrinkwrapChanges (exampleConfiguration a b) = None"
  by (simp_all add: preventShrinkwrapChanges_def useWorkspacesEnabled_def exampleConfiguration_def)

lemma example_run_lockfile_only:
  "refreshState envLockfileAbc (exampleConfiguration True False)
     (exampleTracker (Some ''abc'') (Some ''pv0''), []) =
   (True, exampleTracker (Some ''abc'') None,
    [(''common/config/rush/repo-state.json'',
      banner @ [newline] @ stringifyExample (JObj [(''pnpmShrinkwrapHash'', JStr ''abc'')]))])"
  by (simp add: refreshState_unfold reconciled_def refreshShrinkwrapHash_def
      refreshPreferredVersionsHash_def committedShrinkwrapFile_def envLockfileAbc_def
      exampleTracker_def Let_def fileContent_def serialize_def serializedJson_def)

section \<open>Refreshing the tracker\<close>

text \<open>
  C3, as the spec states it: after \<^verbatim>\<open>refreshState\<close> the persisted record has the field of
  every enabled flag. It fails when lockfile tracking is enabled and the lockfile cannot be
  located: starting from an empty tracker with both flags on, the file written holds
  \<open>preferredVersionsHash\<close> only.
\<close>

theorem enabled_flag_without_lockfile_has_no_field:
  "preventShrinkwrapChanges (exampleConfiguration True True) \<and>
   useWorkspacesEnabled (exampleConfiguration True True) \<and>
   refreshState envNoLockfile (exampleConfiguration True True) (exampleTracker None None, []) =
   (True, exampleTracker None (Some ''pv1''),
    [(''common/config/rush/repo-state.json'',
      banner @ [newline] @ stringifyExample (JObj [(''preferredVersionsHash'', JStr ''pv1'')]))]) \<and>
   strProp (serializedJson (exampleTracker None (Some ''pv1''))) ''pnpmShrinkwrapHash'' = None"
  by (simp add: refreshState_unfold reconciled_def refreshShrinkwrapHash_def
      refreshPreferredVersionsHash_def committedShrinkwrapFile_def envNoLockfile_def
      exampleTracker_def Let_def fileContent_def serialize_def serializedJson_def)


text \<open>
  C3, amended: after \<^verbatim>\<open>refreshState\<close>, the record that \<^verbatim>\<open>_serialize\<close> persists has no
  field of a disabled flag; it has \<open>preferredVersionsHash\<close> with the fresh hash when
  workspace tracking is enabled, and \<open>pnpmShrinkwrapHash\<close> with the fresh hash when lockfile
  tracking is enabled and the lockfile was located (an empty hash is left out). When the
  lockfile is not located the stored shrinkwrap hash stays as it was. The file written, if
  any, is the banner and that record; when nothing is written to an unmodified tracker, both
  fields are as before.
\<close>

theorem refreshState_fields_follow_flags:
  assumes "refreshState env cfg (this, d) = (w, this', d')"
  shows "strProp (serializedJson this') ''pnpmShrinkwrapHash'' =
           (if preventShrinkwrapChanges cfg then
              (case committedShrinkwrapFile env cfg this of
                 Some f \<Rightarrow> omitEmpty (Some (getShrinkwrapHash f
                             (omitImportersFromPreventManualShrinkwrapChanges cfg)))
               | None \<Rightarrow> omitEmpty (pnpmShrinkwrapHash this))
            else None) \<and>
         strProp (serializedJson this') ''preferredVersionsHash'' =
           (if useWorkspacesEnabled cfg
            then omitEmpty (Some (getPreferredVersionsHash (getCommonVersions cfg (variant this))))
            else None) \<and>
         d' = (if w then d @ [(repoStateFilePath this,
                               banner @ [newline] @ JsonFile_stringify env (serializedJson this'))]
               else d) \<and>
         (w \<or> modified this \<or>
            (pnpmShrinkwrapHash this' = pnpmShrinkwrapHash this \<and>
             preferredVersionsHash this' = preferredVersionsHash this))"
proof -
  note r = refreshState_result [OF assms]
  have 1: "pnpmShrinkwrapHash this' = pnpmShrinkwrapHash (reconciled env cfg this)"
    and 2: "preferredVersionsHash this' = preferredVersionsHash (reconciled env cfg this)"
    using r(2) by simp_all
  have a: "strProp (serializedJson this') ''pnpmShrinkwrapHash'' =
           (if preventShrinkwrapChanges cfg then
              (case committedShrinkwrapFile env cfg this of
                 Some f \<Rightarrow> omitEmpty (Some (getShrinkwrapHash f
                             (omitImportersFromPreventManualShrinkwrapChanges cfg)))
               | None \<Rightarrow> omitEmpty (pnpmShrinkwrapHash this))
            else None)"
    unfolding strProp_serializedJson 1 reconciled_pnpmShrinkwrapHash
    by (simp split: option.splits)
  have b: "strProp (serializedJson this') ''preferredVersionsHash'' =
           (if useWorkspacesEnabled cfg
            then omitEmpty (Some (getPreferredVersionsHash (getCommonVersions cfg (variant this))))
            else None)"
    unfolding strProp_serializedJson 2 reconciled_preferredVersionsHash by simp
  have c: "d' = (if w then d @ [(repoStateFilePath this,
                               banner @ [newline] @ JsonFile_stringify env (serializedJson this'))]
               else d)"
    using r(3) by (simp add: fileContent_def serialize_def)
  have e: "w \<or> modified this \<or>
            (pnpmShrinkwrapHash this' = pnpmShrinkwrapHash this \<and>
             preferredVersionsHash this' = preferredVersionsHash this)"
    using reconciled_unmodified [of this env cfg] r(1) 1 2 by auto
  from a b c e show ?thesis by blast
qed


text \<open>C3, amended, at: lockfile tracking on, workspace tracking off, both hashes stored.\<close>

theorem refreshState_fields_follow_flags_witness:
  "refreshState envLockfileAbc (exampleConfiguration True False)
     (exampleTracker (Some ''abc'') (Some ''pv0''), []) =
   (True, exampleTracker (Some ''abc'') None,
    [(''common/config/rush/repo-state.json'',
      banner @ [newline] @ stringifyExample (JObj [(''pnpmShrinkwrapHash'', JStr ''abc'')]))]) \<and>
   strProp (serializedJson (exampleTracker (Some ''abc'') None)) ''pnpmShrinkwrapHash'' = Some ''abc'' \<and>
   strProp (serializedJson (exampleTracker (Some ''abc'') None)) ''preferredVersionsHash'' = None"
  using refreshState_fields_follow_flags [OF example_run_lockfile_only] example_run_lockfile_only
  by (simp add: committedShrinkwrapFile_def envLockfileAbc_def)


text \<open>
  C5: of two calls of \<^verbatim>\<open>refreshState\<close> in succession with the same inputs, the second
  writes nothing, returns false and leaves the tracker as it is; the first returns true
  exactly when it wrote, and then it wrote once, to the tracker's file.
\<close>

theorem refreshState_twice:
  "(case refreshState env cfg (this, d) of
      (w1, this1, d1) \<Rightarrow>
        refreshState env cfg (this1, d1) = (False, this1, d1) \<and>
        d1 = (if w1 then d @ [(repoStateFilePath this, fileContent env this1)] else d))"
proof -
  let ?r = "reconciled env cfg this"
  show ?thesis
  proof (cases "modified ?r")
    case True
    have st: "reconciled env cfg (?r\<lparr>modified := False\<rparr>) = ?r\<lparr>modified := False\<rparr>"
      by (rule reconciled_stable)
    have path: "repoStateFilePath ?r = repoStateFilePath this"
      by (simp add: reconciled_def refreshShrinkwrapHash_frame refreshPreferredVersionsHash_frame)
    show ?thesis
      using True st
      by (simp add: refreshState_unfold Let_def fileContent_ignores_flags)
  next
    case False
    have "?r\<lparr>modified := False\<rparr> = ?r" using False by simp
    then have st: "reconciled env cfg ?r = ?r"
      using reconciled_stable [where env = env and cfg = cfg and this = this and b = False] by simp
    show ?thesis
      using False st by (simp add: refreshState_unfold Let_def)
  qed
qed


text \<open>C5 at: both flags on, an empty tracker, an empty write log.\<close>

theorem refreshState_twice_witness:
  "(case refreshState envLockfileAbc (exampleConfiguration True True) (exampleTracker None None, []) of
      (w1, this1, d1) \<Rightarrow>
        w1 \<and> length d1 = 1 \<and>
        refreshState envLockfileAbc (exampleConfiguration True True) (this1, d1) = (False, this1, d1))"
  using refreshState_twice [where env = envLockfileAbc and cfg = "exampleConfiguration True True"
      and this = "exampleTracker None None" and d = "[]"]
  by (simp add: refreshState_unfold reconciled_def refreshShrinkwrapHash_def
      refreshPreferredVersionsHash_def committedShrinkwrapFile_def envLockfileAbc_def
      exampleTracker_def Let_def split: prod.splits)

text \<open>C6: after every call of \<^verbatim>\<open>refreshState\<close> the tracker's \<open>isValid\<close> is true.\<close>

theorem refreshState_isValid:
  "isValid (fst (snd (refreshState env cfg (this, d))))"
  by (simp add: refreshState_unfold Let_def reconciled_def)


text \<open>
  C4, as the spec states it: with lockfile tracking enabled and the lockfile not located, the
  stored shrinkwrap hash is cleared. It is not: with \<open>abc\<close> stored, \<^verbatim>\<open>refreshState\<close>
  returns false, writes nothing, and the tracker still holds \<open>abc\<close>.
\<close>

theorem missing_lockfile_keeps_stored_hash:
  "preventShrinkwrapChanges (exampleConfiguration True False) \<and>
   committedShrinkwrapFile envNoLockfile (exampleConfiguration True False)
     (exampleTracker (Some ''abc'') None) = None \<and>
   refreshState envNoLockfile (exampleConfiguration True False)
     (exampleTracker (Some ''abc'') None, []) =
   (False, exampleTracker (Some ''abc'') None, [])"
  by (simp add: refreshState_unfold reconciled_def refreshShrinkwrapHash_def
      refreshPreferredVersionsHash_def committedShrinkwrapFile_def envNoLockfile_def
      exampleTracker_def Let_def)


text \<open>
  C4, amended: whenever lockfile tracking is enabled and the lockfile cannot be located,
  \<^verbatim>\<open>refreshState\<close> raises nothing and its first block leaves the tracker untouched: the
  stored shrinkwrap hash is neither cleared nor replaced, and the tracker is not marked
  modified on its account.
\<close>

theorem missing_lockfile_leaves_hash_unchanged:
  assumes "preventShrinkwrapChanges cfg"
      and "committedShrinkwrapFile env cfg this = None"
  shows "refreshShrinkwrapHash env cfg this = this \<and>
         pnpmShrinkwrapHash (fst (snd (refreshState env cfg (this, d)))) = pnpmShrinkwrapHash this"
  using assms
  by (simp add: refreshState_unfold Let_def reconciled_pnpmShrinkwrapHash refreshShrinkwrapHash_def)


text \<open>C4, amended, at: both flags on, \<open>abc\<close> stored, no lockfile.\<close>

theorem missing_lockfile_leaves_hash_unchanged_witness:
  "preventShrinkwrapChanges (exampleConfiguration True True) \<and>
   committedShrinkwrapFile envNoLockfile (exampleConfiguration True True)
     (exampleTracker (Some ''abc'') None) = None \<and>
   pnpmShrinkwrapHash (fst (snd (refreshState envNoLockfile (exampleConfiguration True True)
     (exampleTracker (Some ''abc'') None, [])))) = Some ''abc''"
proof -
  have a: "preventShrinkwrapChanges (exampleConfiguration True True)" by simp
  have b: "committedShrinkwrapFile envNoLockfile (exampleConfiguration True True)
     (exampleTracker (Some ''abc'') None) = None"
    by (simp add: committedShrinkwrapFile_def envNoLockfile_def)
  show ?thesis
    using missing_lockfile_leaves_hash_unchanged [OF a b, of "[]"] a b
    by (simp add: exampleTracker_def)
qed


text \<open>
  C8: lockfile tracking enabled, \<open>abc\<close> stored and freshly computed, workspace tracking
  disabled, a preferred-versions hash stored. \<^verbatim>\<open>refreshState\<close> returns true, and the file
  it writes is the banner and the record with \<open>pnpmShrinkwrapHash: abc\<close> as its only field.
\<close>

theorem refresh_clears_preferred_versions_only:
  assumes "preventShrinkwrapChanges cfg"
      and "committedShrinkwrapFile env cfg this = Some f"
      and "getShrinkwrapHash f (omitImportersFromPreventManualShrinkwrapChanges cfg) = ''abc''"
      and "pnpmShrinkwrapHash this = Some ''abc''"
      and "\<not> useWorkspacesEnabled cfg"
      and "preferredVersionsHash this = Some p"
  shows "refreshState env cfg (this, d) =
           (True, this\<lparr>preferredVersionsHash := None, isValid := True, modified := False\<rparr>,
            d @ [(repoStateFilePath this,
                  banner @ [newline] @
                  JsonFile_stringify env (JObj [(''pnpmShrinkwrapHash'', JStr ''abc'')]))])"
  using assms
  by (simp add: refreshState_unfold reconciled_def refreshShrinkwrapHash_def
      refreshPreferredVersionsHash_def Let_def fileContent_def serialize_def serializedJson_def)


text \<open>C8 with concrete collaborators; the written text is spelled out.\<close>

theorem refresh_clears_preferred_versions_only_witness:
  "refreshState envLockfileAbc (exampleConfiguration True False)
     (exampleTracker (Some ''abc'') (Some ''pv0''), []) =
   (True, exampleTracker (Some ''abc'') None,
    [(''common/config/rush/repo-state.json'',
      banner @ [newline] @ ''{'' @ [newline] @
      ''  '' @ [CHR 0x22] @ ''pnpmShrinkwrapHash'' @ [CHR 0x22] @ '': '' @
         [CHR 0x22] @ ''abc'' @ [CHR 0x22] @ [newline] @
      ''}'' @ [newline])])"
proof -
  have a: "preventShrinkwrapChanges (exampleConfiguration True False)" by simp
  have b: "committedShrinkwrapFile envLockfileAbc (exampleConfiguration True False)
             (exampleTracker (Some ''abc'') (Some ''pv0''))
           = Some \<lparr>getShrinkwrapHash = (\<lambda>omitImporters. ''abc'')\<rparr>"
    by (simp add: committedShrinkwrapFile_def envLockfileAbc_def)
  have c: "getShrinkwrapHash \<lparr>getShrinkwrapHash = (\<lambda>omitImporters. ''abc'')\<rparr>
             (omitImportersFromPreventManualShrinkwrapChanges (exampleConfiguration True False)) = ''abc''"
    by simp
  have e: "pnpmShrinkwrapHash (exampleTracker (Some ''abc'') (Some ''pv0'')) = Some ''abc''"
    by (simp add: exampleTracker_def)
  have f: "\<not> useWorkspacesEnabled (exampleConfiguration True False)" by simp
  have g: "preferredVersionsHash (exampleTracker (Some ''abc'') (Some ''pv0'')) = Some ''pv0''"
    by (simp add: exampleTracker_def)
  show ?thesis
    using refresh_clears_preferred_versions_only [OF a b c e f g, of "[]"]
    by (simp add: exampleTracker_def envLockfileAbc_def stringifyField_def)
qed


section \<open>Saving and loading again\<close>

lemma validate_serializedJson: "validateObject (serializedJson this)"
  by (cases "pnpmShrinkwrapHash this"; cases "preferredVersionsHash this";
      simp add: serializedJson_def)

lemma fileContent_nonempty: "fileContent env this \<noteq> []"
  by (simp add: fileContent_def banner_def)

lemma load_parsed_object:
  assumes "parseString c = Some j" and "c \<noteq> []" and "validateObject j"
  shows "loadFromFile parseString (\<lambda>p. FileContents c) fn v =
           Inr \<lparr>repoStateFilePath = fn, variant = v,
                pnpmShrinkwrapHash = strProp j ''pnpmShrinkwrapHash'',
                preferredVersionsHash = strProp j ''preferredVersionsHash'',
                isValid = True, modified = False\<rparr>"
proof -
  have "truthy j" using assms(3) by (cases j) simp_all
  then show ?thesis
    using assms by (simp add: loadFromFile_def newRepoStateFile_def)
qed


text \<open>
  C7, as the spec states it: for every tracker state, the file written loads back with the
  same fields. A tracker whose shrinkwrap hash is the empty string writes a record without
  that field (\<^verbatim>\<open>_serialize\<close> tests truthiness), and loading the file gives an absent
  hash.
\<close>

theorem empty_hash_is_dropped_by_round_trip:
  "pnpmShrinkwrapHash ((exampleTracker (Some '''') (Some ''pv1''))\<lparr>modified := True\<rparr>) = Some '''' \<and>
   saveIfModified envNoLockfile ((exampleTracker (Some '''') (Some ''pv1''))\<lparr>modified := True\<rparr>, []) =
     (True, exampleTracker (Some '''') (Some ''pv1''),
      [(''common/config/rush/repo-state.json'',
        banner @ [newline] @ stringifyExample (JObj [(''preferredVersionsHash'', JStr ''pv1'')]))]) \<and>
   loadFromFile (parseWritten (JObj [(''preferredVersionsHash'', JStr ''pv1'')]))
     (\<lambda>p. FileContents
        (banner @ [newline] @ stringifyExample (JObj [(''preferredVersionsHash'', JStr ''pv1'')])))
     ''common/config/rush/repo-state.json'' None =
   Inr (exampleTracker None (Some ''pv1''))"
proof -
  let ?j = "JObj [(''preferredVersionsHash'', JStr ''pv1'')]"
  let ?c = "banner @ [newline] @ stringifyExample ?j"
  have p: "parseWritten ?j ?c = Some ?j" by (simp only: parseWritten_def simp_thms if_True)
  have n: "?c \<noteq> []" by (simp add: banner_def)
  have v: "validateObject ?j" by simp
  have l: "loadFromFile (parseWritten ?j) (\<lambda>p. FileContents ?c)
             ''common/config/rush/repo-state.json'' None = Inr (exampleTracker None (Some ''pv1''))"
    using load_parsed_object [where parseString = "parseWritten ?j" and c = ?c and j = ?j
        and fn = "''common/config/rush/repo-state.json''" and v = None] p n v
    by (simp add: exampleTracker_def)
  have s: "saveIfModified envNoLockfile ((exampleTracker (Some '''') (Some ''pv1''))\<lparr>modified := True\<rparr>, []) =
     (True, exampleTracker (Some '''') (Some ''pv1''),
      [(''common/config/rush/repo-state.json'', ?c)])"
    by (simp add: saveIfModified_def writeFile_def fileContent_def serialize_def
        serializedJson_def exampleTracker_def envNoLockfile_def)
  show ?thesis using l s by (simp add: exampleTracker_def)
qed


text \<open>
  C7, amended: for every tracker state whose hashes are absent or non-empty, and a parser
  that reads the written text back as the object \<^verbatim>\<open>_serialize\<close> built, saving writes the
  banner and the record to the tracker's file, and \<^verbatim>\<open>loadFromFile\<close> on that content
  returns the same path, variant and hashes, with \<open>isValid = true\<close>.
\<close>

theorem save_then_load_round_trip:
  assumes "modified this"
      and "parseString (fileContent env this) = Some (serializedJson this)"
      and "pnpmShrinkwrapHash this \<noteq> Some []"
      and "preferredVersionsHash this \<noteq> Some []"
  shows "saveIfModified env (this, d) =
           (True, this\<lparr>modified := False\<rparr>,
            d @ [(repoStateFilePath this, fileContent env this)]) \<and>
         loadFromFile parseString (\<lambda>p. FileContents (fileContent env this))
             (repoStateFilePath this) (variant this) =
           Inr (this\<lparr>isValid := True, modified := False\<rparr>)"
proof -
  have s: "saveIfModified env (this, d) =
           (True, this\<lparr>modified := False\<rparr>,
            d @ [(repoStateFilePath this, fileContent env this)])"
    using assms(1) by (simp add: saveIfModified_def writeFile_def)
  have o1: "omitEmpty (pnpmShrinkwrapHash this) = pnpmShrinkwrapHash this"
    using assms(3) by (cases "pnpmShrinkwrapHash this") simp_all
  have o2: "omitEmpty (preferredVersionsHash this) = preferredVersionsHash this"
    using assms(4) by (cases "preferredVersionsHash this") simp_all
  have l: "loadFromFile parseString (\<lambda>p. FileContents (fileContent env this))
             (repoStateFilePath this) (variant this) =
           Inr \<lparr>repoStateFilePath = repoStateFilePath this, variant = variant this,
                pnpmShrinkwrapHash = pnpmShrinkwrapHash this,
                preferredVersionsHash = preferredVersionsHash this,
                isValid = True, modified = False\<rparr>"
    using load_parsed_object [of parseString "fileContent env this" "serializedJson this"
        "repoStateFilePath this" "variant this"]
      assms(2) fileContent_nonempty validate_serializedJson
    by (simp add: strProp_serializedJson o1 o2)
  show ?thesis using s l by simp
qed


text \<open>C7, amended, at a tracker that stores \<open>abc\<close> as its shrinkwrap hash.\<close>

theorem save_then_load_round_trip_witness:
  "loadFromFile (parseWritten (JObj [(''pnpmShrinkwrapHash'', JStr ''abc'')]))
     (\<lambda>p. FileContents
        (banner @ [newline] @ stringifyExample (JObj [(''pnpmShrinkwrapHash'', JStr ''abc'')])))
     ''common/config/rush/repo-state.json'' None =
   Inr (exampleTracker (Some ''abc'') None) \<and>
   saveIfModified envNoLockfile ((exampleTracker (Some ''abc'') None)\<lparr>modified := True\<rparr>, []) =
     (True, exampleTracker (Some ''abc'') None,
      [(''common/config/rush/repo-state.json'',
        banner @ [newline] @ stringifyExample (JObj [(''pnpmShrinkwrapHash'', JStr ''abc'')]))])"
proof -
  let ?t = "(exampleTracker (Some ''abc'') None)\<lparr>modified := True\<rparr>"
  let ?j = "JObj [(''pnpmShrinkwrapHash'', JStr ''abc'')]"
  have sj: "serializedJson ?t = ?j"
    by (simp add: serializedJson_def exampleTracker_def)
  have fc: "fileContent envNoLockfile ?t = banner @ [newline] @ stringifyExample ?j"
    by (simp only: fileContent_def serialize_def sj) (simp add: envNoLockfile_def)
  have a: "modified ?t" by simp
  have b: "parseWritten ?j (fileContent envNoLockfile ?t) = Some (serializedJson ?t)"
    by (simp only: fc sj parseWritten_def simp_thms if_True)
  have c: "pnpmShrinkwrapHash ?t \<noteq> Some []" by (simp add: exampleTracker_def)
  have e: "preferredVersionsHash ?t \<noteq> Some []" by (simp add: exampleTracker_def)
  show ?thesis
    using save_then_load_round_trip [where parseString = "parseWritten ?j" and env = envNoLockfile
        and this = ?t and d = "[]"] a b c e
    unfolding fc by (simp add: exampleTracker_def)
qed


section \<open>Custom tips: showing a tip\<close>

lemma printed_append: "printed (a @ b) = printed a @ printed b"
  by (simp add: printed_def)

lemma printed_writeMargin: "printed (writeMargin sev t) = printed t @ marginText sev"
  by (cases sev) (simp_all add: printed_def)

lemma printed_writeHeader: "printed (writeHeader sev h t) = printed t @ h @ [newline]"
  by (cases sev) (simp_all add: printed_def)

lemma printed_message_lines:
  "printed (foldl (writeMessageLine sev) t ls) =
     printed t @ concat (map (\<lambda>l. marginText sev @ removeIndent l @ [newline]) ls)"
proof (induction ls arbitrary: t)
  case Nil
  show ?case by simp
next
  case (Cons l ls)
  have "printed (writeMessageLine sev t l) = printed t @ marginText sev @ removeIndent l @ [newline]"
    by (simp add: writeMessageLine_def printed_append printed_writeMargin) (simp add: printed_def)
  then show ?case using Cons [of "writeMessageLine sev t l"] by simp
qed

lemma printed_writeMessageWithPipes:
  assumes "map_of (tipMap this) (tipIdString tid) = Some item"
  shows "printed (writeMessageWithPipes wrapWords this t sev tid) =
           printed t @ ''| Custom Tip ('' @ tipIdString tid @ '')'' @ [newline] @ ''|'' @ [newline] @
           concat (map (\<lambda>l. marginText sev @ removeIndent l @ [newline])
                     (splitLines (wrapWords (message item) None 2))) @ [newline]"
  using assms
  by (simp add: writeMessageWithPipes_def Let_def printed_append printed_message_lines
      printed_writeHeader formatMessageHeader_def)
     (simp add: printed_def)

lemma undefined_tip_writes_nothing:
  assumes "map_of (tipMap this) (tipIdString tid) = None"
  shows "showTip wrapWords this t tid = t \<and> showInfoTip wrapWords this t tid = t \<and>
         showWarningTip wrapWords this t tid = t \<and> showErrorTip wrapWords this t tid = t"
  using assms
  by (simp add: showTip_def showInfoTip_def showWarningTip_def showErrorTip_def
      writeMessageWithPipes_def)

lemma registry_severity: "severity (customTipRegistry tid) = Error"
  by (cases tid) simp_all

lemma showTip_is_showErrorTip:
  "showTip wrapWords this t tid = showErrorTip wrapWords this t tid"
  by (simp add: showTip_def showErrorTip_def registry_severity writeMessageWithPipes_def
      split: option.splits)

lemma error_and_warning_tips_are_framed:
  assumes "map_of (tipMap this) (tipIdString tid) = Some item" and "sev \<noteq> Info"
  shows "printed (writeMessageWithPipes wrapWords this [] sev tid) =
           ''| Custom Tip ('' @ tipIdString tid @ '')'' @ [newline] @ ''|'' @ [newline] @
           concat (map (\<lambda>l. ''| '' @ removeIndent l @ [newline])
                     (splitLines (wrapWords (message item) None 2))) @ [newline]"
proof -
  have "marginText sev = ''| ''" using assms(2) by (cases sev) simp_all
  then show ?thesis
    using printed_writeMessageWithPipes [OF assms(1), of wrapWords "[]" sev]
    by (simp add: printed_def)
qed

lemma info_tips_put_the_margin_on_its_own_line:
  assumes "map_of (tipMap this) (tipIdString tid) = Some item"
  shows "printed (showInfoTip wrapWords this [] tid) =
           ''| Custom Tip ('' @ tipIdString tid @ '')'' @ [newline] @ ''|'' @ [newline] @
           concat (map (\<lambda>l. ''| '' @ [newline] @ removeIndent l @ [newline])
                     (splitLines (wrapWords (message item) None 2))) @ [newline]"
  using printed_writeMessageWithPipes [OF assms, of wrapWords "[]" Info]
  by (simp add: printed_def showInfoTip_def)


text \<open>
  C9: a defined tip is written as the header and then the message with a \<open>| \<close> margin on
  every line, at the chosen severity. At severity \<open>Info\<close> the margin is written with
  \<^verbatim>\<open>writeLine\<close>, so it ends its own line: for the message \<open>hello\<close>, \<^verbatim>\<open>_showInfoTip\<close>
  prints the line \<open>| \<close> and then the line \<open>hello\<close>, which has no margin.
\<close>

theorem info_tip_message_is_not_framed:
  "showInfoTip wrapWordsExample
     \<lparr>tipMap = [(''TIP_RUSH_INCONSISTENT_VERSIONS'',
                  \<lparr>tipId = ''TIP_RUSH_INCONSISTENT_VERSIONS'', message = ''hello''\<rparr>)],
      jsonFileName = ''custom-tips.json'',
      configuration = \<lparr>customTips = Some [\<lparr>tipId = ''TIP_RUSH_INCONSISTENT_VERSIONS'',
                                            message = ''hello''\<rparr>]\<rparr>\<rparr>
     [] TIP_RUSH_INCONSISTENT_VERSIONS =
   [WriteLine (''| Custom Tip (TIP_RUSH_INCONSISTENT_VERSIONS)'' @ [newline] @ ''|''),
    WriteLine ''| '', WriteLine ''hello'', Write [newline]] \<and>
   splitLines (printed
     [WriteLine (''| Custom Tip (TIP_RUSH_INCONSISTENT_VERSIONS)'' @ [newline] @ ''|''),
      WriteLine ''| '', WriteLine ''hello'', Write [newline]]) =
   [''| Custom Tip (TIP_RUSH_INCONSISTENT_VERSIONS)'', ''|'', ''| '', ''hello'', [], []]"
  by (simp add: showInfoTip_def writeMessageWithPipes_def formatMessageHeader_def
      wrapWordsExample_def writeMessageLine_def printed_def newline_def eval_nat_numeral)


section \<open>Custom tips: the constructor\<close>









lemma load_failure_names_the_file:
  assumes "fileExists fn" and "loadAndValidate fn = None"
  shows "newCustomTipsConfiguration fileExists loadAndValidate basename fn =
           Inl (LoadAndValidateFailed fn)"
  using assms by (simp add: newCustomTipsConfiguration_def)



end
